theory Spec2Isabelle
  imports Main "HOL-Library.Word" "HOL-Library.Sublist"
begin

section \<open>Values, exceptions and observable actions\<close>

text \<open>
  The program (\<^verbatim>\<open>propulsion_tcp_client.py\<close>) is three coroutines on one asyncio event
  loop: the command pump \<^verbatim>\<open>read_stdin_and_send\<close>, the telemetry pump
  \<^verbatim>\<open>read_tcp_and_print\<close> and the supervisor \<^verbatim>\<open>tcp_translation_client\<close>, called by
  \<^verbatim>\<open>main\<close>. A coroutine is modelled as a resumable state machine: one state per
  \<^verbatim>\<open>await\<close> of the source (named after the awaited call, with its line), and a
  transition function that takes the outcome of the pending await (a value or an
  exception) and runs the code up to the next await, returning the actions performed on
  the way. The outcomes of the awaits are the environment: every theorem below
  quantifies over them.

  Calls that do not suspend append an action to the trace. \<^verbatim>\<open>writer.write\<close>,
  \<^verbatim>\<open>writer.close\<close>, \<^verbatim>\<open>create_task\<close>, \<^verbatim>\<open>cancel\<close> and the prints on standard error do
  not fail; the print on standard output of line 36 returns or raises as the standard
  output of the process decides.
\<close>

type_synonym bytes = "8 word list"

text \<open>A Python \<^verbatim>\<open>str\<close>: a list of code points.\<close>

type_synonym unicode = "nat list"

text \<open>
  Exception classes. \<open>ConnectionResetError\<close>, \<open>ConnectionRefusedError\<close>,
  \<open>BrokenPipeError\<close>, \<open>OSError\<close>, \<open>ValueError\<close> and \<open>UnicodeEncodeError\<close> derive from
  \<^verbatim>\<open>Exception\<close>;
  \<open>CancelledError\<close> (Python 3.8 and later), \<open>KeyboardInterrupt\<close> and \<open>SystemExit\<close>
  derive from \<^verbatim>\<open>BaseException\<close> only.
\<close>

datatype exn_class =
    ConnectionResetError
  | ConnectionRefusedError
  | BrokenPipeError
  | OSError
  | ValueError
  | UnicodeEncodeError
  | CancelledError
  | KeyboardInterrupt
  | SystemExit

text \<open>An exception object: its class and \<^verbatim>\<open>str(e)\<close>.\<close>

datatype exn = Exn (exn_class: exn_class) (message: string)

text \<open>\<^verbatim>\<open>isinstance(e, Exception)\<close>.\<close>

fun is_Exception :: "exn \<Rightarrow> bool" where
  "is_Exception (Exn CancelledError m) = False"
| "is_Exception (Exn KeyboardInterrupt m) = False"
| "is_Exception (Exn SystemExit m) = False"
| "is_Exception (Exn c m) = True"

text \<open>
  The clause \<^verbatim>\<open>except (ConnectionResetError, asyncio.CancelledError)\<close> of both pumps
  (lines 21 and 37).
\<close>

fun pump_catches :: "exn \<Rightarrow> bool" where
  "pump_catches (Exn ConnectionResetError m) = True"
| "pump_catches (Exn CancelledError m) = True"
| "pump_catches (Exn c m) = False"

text \<open>
  What the event loop sends into a suspended coroutine: the value of the awaited call
  (the bytes of \<^verbatim>\<open>readline()\<close> and \<^verbatim>\<open>read(1024)\<close>; ignored by the awaits whose value the
  source discards) or an exception raised at the await.
\<close>

datatype outcome = Returns bytes | Raises exn

text \<open>How a coroutine ends.\<close>

datatype result = Returned | Raised exn

datatype task_id = StdinTask | LogTask

text \<open>
  The observable actions, in program order. \<open>ReadLine\<close> and \<open>Recv\<close> record what a read
  returned; \<open>Drained\<close> and \<open>Closed\<close> record that \<^verbatim>\<open>await writer.drain()\<close> and
  \<^verbatim>\<open>await writer.wait_closed()\<close> returned; \<open>PrintErr\<close> is one \<^verbatim>\<open>print(..., file=sys.stderr)\<close>
  (which ends the text with a newline), \<open>PrintOut\<close> one
  \<^verbatim>\<open>print(text, end='', flush=True)\<close>; \<open>TaskDone\<close> records that a task reached a terminal
  state.
\<close>

datatype action =
    OpenConnection nat
  | PrintErr string
  | PrintOut unicode
  | ReadLine bytes
  | Write bytes
  | Drained
  | Close
  | Closed
  | Recv bytes
  | CreateTask task_id
  | Cancel task_id
  | TaskDone task_id result

section \<open>The command pump: \<^verbatim>\<open>read_stdin_and_send\<close>\<close>

text \<open>
  The suspension points of lines 7 to 25. \<open>CP_WaitClosed pending\<close> is the await of the
  \<^verbatim>\<open>finally\<close> block; \<open>pending\<close> is the exception the \<^verbatim>\<open>try\<close> statement did not catch and
  re-raises once the block has run.
\<close>

datatype cp_state =
    CP_ConnectPipe
  | CP_ReadLine
  | CP_Drain
  | CP_WaitClosed "exn option"
  | CP_Done result

text \<open>Lines 23 to 25: \<^verbatim>\<open>writer.close()\<close>, then \<^verbatim>\<open>await writer.wait_closed()\<close>.\<close>

definition cp_finally :: "exn option \<Rightarrow> cp_state \<times> action list" where
  "cp_finally pending = (CP_WaitClosed pending, [Close])"

text \<open>Lines 21 to 22: an exception raised in the \<^verbatim>\<open>try\<close> block.\<close>

definition cp_except :: "exn \<Rightarrow> cp_state \<times> action list" where
  "cp_except e = (if pump_catches e then cp_finally None else cp_finally (Some e))"

fun read_stdin_and_send :: "cp_state \<Rightarrow> outcome \<Rightarrow> cp_state \<times> action list" where
  "read_stdin_and_send CP_ConnectPipe (Returns v) = (CP_ReadLine, [])"
| "read_stdin_and_send CP_ConnectPipe (Raises e) = (CP_Done (Raised e), [])"
| "read_stdin_and_send CP_ReadLine (Returns line) =
     (if line = [] then (CP_WaitClosed None, [ReadLine line, Close])
      else (CP_Drain, [ReadLine line, Write line]))"
| "read_stdin_and_send CP_ReadLine (Raises e) = cp_except e"
| "read_stdin_and_send CP_Drain (Returns v) = (CP_ReadLine, [Drained])"
| "read_stdin_and_send CP_Drain (Raises e) = cp_except e"
| "read_stdin_and_send (CP_WaitClosed pending) (Returns v) =
     (CP_Done (case pending of None \<Rightarrow> Returned | Some e \<Rightarrow> Raised e), [Closed])"
| "read_stdin_and_send (CP_WaitClosed pending) (Raises e) = (CP_Done (Raised e), [])"
| "read_stdin_and_send (CP_Done r) ev = (CP_Done r, [])"

text \<open>
  The pump alone, driven by the outcomes of its successive awaits. A script that stops
  before the pump is done leaves it suspended at an await.
\<close>

fun run_stdin :: "cp_state \<Rightarrow> outcome list \<Rightarrow> cp_state \<times> action list" where
  "run_stdin st [] = (st, [])"
| "run_stdin st (ev # evs) =
     (case read_stdin_and_send st ev of
        (st', acts) \<Rightarrow> (case run_stdin st' evs of (st'', acts') \<Rightarrow> (st'', acts @ acts')))"

text \<open>The bytes put on the command connection, in order.\<close>

fun wire :: "action list \<Rightarrow> bytes" where
  "wire [] = []"
| "wire (Write b # as) = b @ wire as"
| "wire (a # as) = wire as"

text \<open>What \<^verbatim>\<open>readline()\<close> returned, in order.\<close>

fun lines_read :: "action list \<Rightarrow> bytes list" where
  "lines_read [] = []"
| "lines_read (ReadLine l # as) = l # lines_read as"
| "lines_read (a # as) = lines_read as"

text \<open>
  The relation between a state of the pump inside its \<^verbatim>\<open>try\<close> statement and the
  actions so far that the \<^verbatim>\<open>finally\<close> block maintains: suspended at line 25 the
  connection has just been closed; returned, the last two actions are the close and the
  completed wait; ended by an exception, the last actions are the close and the wait,
  which raised or completed.
\<close>

fun closes :: "cp_state \<Rightarrow> action list \<Rightarrow> bool" where
  "closes (CP_WaitClosed pending) tr = suffix [Close] tr"
| "closes (CP_Done Returned) tr = suffix [Close, Closed] tr"
| "closes (CP_Done (Raised e)) tr = (suffix [Close] tr \<or> suffix [Close, Closed] tr)"
| "closes st tr = True"

section \<open>The telemetry pump: \<^verbatim>\<open>read_tcp_and_print\<close>\<close>

text \<open>
  Lines 35 and 36 call into the interpreter: \<^verbatim>\<open>data.decode('utf-8', errors='replace')\<close>
  and \<^verbatim>\<open>print(text, end='', flush=True)\<close>. Both are parameters of the model: \<open>decode\<close> is
  the codec, and \<open>print_raises\<close> says, for a text, which exception the print of it raises
  on the standard output of the process, \<open>None\<close> when the print returns. A print that
  raises has written nothing: the text is encoded before anything is written, and a
  flush that fails has delivered nothing.
\<close>

record console =
  decode :: "bytes \<Rightarrow> unicode"
  print_raises :: "unicode \<Rightarrow> exn option"

text \<open>
  The codec as CPython implements it, on the values of the bytes. An ill-formed sequence
  is replaced by one U+FFFD: a byte that cannot start a sequence, or the longest prefix
  of a sequence that a following byte or the end of the data cuts short. The second byte
  of a sequence of three or four is bounded so that overlong forms, surrogates and code
  points above U+10FFFF are ill-formed.
\<close>

definition continuation :: "nat \<Rightarrow> bool" where
  "continuation b = (0x80 \<le> b \<and> b \<le> 0xBF)"

definition second_byte :: "nat \<Rightarrow> nat \<Rightarrow> bool" where
  "second_byte b0 b1 =
     (continuation b1 \<and>
      (if b0 = 0xE0 then 0xA0 \<le> b1
       else if b0 = 0xED then b1 \<le> 0x9F
       else if b0 = 0xF0 then 0x90 \<le> b1
       else if b0 = 0xF4 then b1 \<le> 0x8F
       else True))"

fun utf8_points :: "nat list \<Rightarrow> nat list" where
  "utf8_points [] = []"
| "utf8_points (b0 # r) =
     (if b0 < 0x80 then b0 # utf8_points r
      else if b0 < 0xC2 then 0xFFFD # utf8_points r
      else if b0 < 0xE0 then
        (case r of
           [] \<Rightarrow> [0xFFFD]
         | b1 # r1 \<Rightarrow>
             if continuation b1
             then ((b0 mod 0x20) * 0x40 + b1 mod 0x40) # utf8_points r1
             else 0xFFFD # utf8_points r)
      else if b0 < 0xF0 then
        (case r of
           [] \<Rightarrow> [0xFFFD]
         | b1 # r1 \<Rightarrow>
             if \<not> second_byte b0 b1 then 0xFFFD # utf8_points r
             else
               (case r1 of
                  [] \<Rightarrow> [0xFFFD]
                | b2 # r2 \<Rightarrow>
                    if continuation b2
                    then ((b0 mod 0x10) * 0x1000 + (b1 mod 0x40) * 0x40 + b2 mod 0x40) #
                         utf8_points r2
                    else 0xFFFD # utf8_points r1))
      else if b0 < 0xF5 then
        (case r of
           [] \<Rightarrow> [0xFFFD]
         | b1 # r1 \<Rightarrow>
             if \<not> second_byte b0 b1 then 0xFFFD # utf8_points r
             else
               (case r1 of
                  [] \<Rightarrow> [0xFFFD]
                | b2 # r2 \<Rightarrow>
                    if \<not> continuation b2 then 0xFFFD # utf8_points r1
                    else
                      (case r2 of
                         [] \<Rightarrow> [0xFFFD]
                       | b3 # r3 \<Rightarrow>
                           if continuation b3
                           then ((b0 mod 8) * 0x40000 + (b1 mod 0x40) * 0x1000 +
                                 (b2 mod 0x40) * 0x40 + b3 mod 0x40) # utf8_points r3
                           else 0xFFFD # utf8_points r2)))
      else 0xFFFD # utf8_points r)"

definition utf8_replace :: "bytes \<Rightarrow> unicode" where
  "utf8_replace data = utf8_points (map unat data)"

text \<open>
  Two standard outputs: one whose encoding has every character, as UTF-8 has, and one
  whose encoding is ASCII, where the print of a text with a character above 127 raises
  \<open>UnicodeEncodeError\<close> (the message is abridged to its reason).
\<close>

definition utf8_terminal :: console where
  "utf8_terminal = \<lparr>decode = utf8_replace, print_raises = (\<lambda>t. None)\<rparr>"


text \<open>
  The only suspension point is \<^verbatim>\<open>await reader.read(1024)\<close> (line 32). Lines 35 and 36 are
  inside the \<^verbatim>\<open>try\<close> statement, so an exception of the print meets the \<^verbatim>\<open>except\<close> clause of
  line 37 like one of the read.
\<close>

datatype tp_state = TP_Read | TP_Done result

text \<open>Lines 37 to 38: an exception raised in the \<^verbatim>\<open>try\<close> block, after the actions so far.\<close>

definition tp_except :: "exn \<Rightarrow> action list \<Rightarrow> tp_state \<times> action list" where
  "tp_except e acts = (if pump_catches e then (TP_Done Returned, acts) else (TP_Done (Raised e), acts))"

fun read_tcp_and_print :: "console \<Rightarrow> tp_state \<Rightarrow> outcome \<Rightarrow> tp_state \<times> action list" where
  "read_tcp_and_print io TP_Read (Returns data) =
     (if data = [] then (TP_Done Returned, [Recv data])
      else (case print_raises io (decode io data) of
              None \<Rightarrow> (TP_Read, [Recv data, PrintOut (decode io data)])
            | Some e \<Rightarrow> tp_except e [Recv data]))"
| "read_tcp_and_print io TP_Read (Raises e) = tp_except e []"
| "read_tcp_and_print io (TP_Done r) ev = (TP_Done r, [])"


text \<open>The text on standard output, in order.\<close>

fun stdout :: "action list \<Rightarrow> unicode" where
  "stdout [] = []"
| "stdout (PrintOut t # as) = t @ stdout as"
| "stdout (a # as) = stdout as"

section \<open>The supervisor: \<^verbatim>\<open>tcp_translation_client\<close> and \<^verbatim>\<open>main\<close>\<close>

text \<open>\<^verbatim>\<open>str(n)\<close> of a non-negative integer, as the f-strings of lines 46 and 50 format a port.\<close>

fun str_nat :: "nat \<Rightarrow> string" where
  "str_nat n =
     (if n < 10 then [''0123456789'' ! n]
      else str_nat (n div 10) @ [''0123456789'' ! (n mod 10)])"

declare str_nat.simps [simp del]

definition ready_to_command :: "nat \<Rightarrow> string" where
  "ready_to_command port = CHR 0x0A # ''Ready to command over port '' @ str_nat port"

definition ready_for_telemetry :: "nat \<Rightarrow> string" where
  "ready_for_telemetry port = ''Ready for telemetry over port '' @ str_nat port @ [CHR 0x0A]"

definition error_message :: "exn \<Rightarrow> string" where
  "error_message e = ''Error: '' @ message e"

definition disconnected :: string where
  "disconnected = CHR 0x0A # ''Disconnected''"

definition exiting :: string where
  "exiting = CHR 0x0A # ''Exiting...''"

text \<open>
  The prints of the supervisor and of \<^verbatim>\<open>main\<close> go to standard error, whose encoder
  escapes the characters it cannot encode instead of raising; they are modelled as
  returning.
\<close>

text \<open>
  The suspension points of the supervisor: the two \<^verbatim>\<open>asyncio.open_connection\<close> calls
  (lines 45 and 49), \<^verbatim>\<open>asyncio.wait(..., return_when=FIRST_COMPLETED)\<close> (line 56) and
  \<^verbatim>\<open>asyncio.gather(..., return_exceptions=True)\<close> (line 61).
\<close>

datatype sup_state =
    S_ConnectCommand
  | S_ConnectLog
  | S_Wait
  | S_Gather
  | S_Done result

text \<open>
  The state of the event loop: the supervisor, the two tasks (\<open>None\<close> before
  \<^verbatim>\<open>create_task\<close>), for each task whether \<^verbatim>\<open>cancel()\<close> has asked that
  \<open>CancelledError\<close> be thrown into it at its next resumption, and the actions so far.
\<close>

record system =
  command_port :: nat
  log_port :: nat
  sup :: sup_state
  stdin_task :: "cp_state option"
  log_task :: "tp_state option"
  stdin_must_cancel :: bool
  log_must_cancel :: bool
  trace :: "action list"

fun stdin_done :: "system \<Rightarrow> bool" where
  "stdin_done s = (case stdin_task s of Some (CP_Done r) \<Rightarrow> True | _ \<Rightarrow> False)"

fun log_done :: "system \<Rightarrow> bool" where
  "log_done s = (case log_task s of Some (TP_Done r) \<Rightarrow> True | _ \<Rightarrow> False)"

text \<open>
  Calling \<^verbatim>\<open>tcp_translation_client(command_port, log_port)\<close> runs it up to its first
  await, line 45.
\<close>

definition tcp_translation_client :: "nat \<Rightarrow> nat \<Rightarrow> system" where
  "tcp_translation_client cport lport =
     \<lparr>command_port = cport, log_port = lport, sup = S_ConnectCommand,
      stdin_task = None, log_task = None,
      stdin_must_cancel = False, log_must_cancel = False,
      trace = [OpenConnection cport]\<rparr>"

text \<open>
  Lines 63 to 66: an exception raised in the \<^verbatim>\<open>try\<close> block of the supervisor.
  \<^verbatim>\<open>except Exception\<close> prints it and the coroutine returns; any other exception
  propagates. The \<^verbatim>\<open>finally\<close> block prints the notice on both paths.
\<close>

definition sup_raise :: "exn \<Rightarrow> system \<Rightarrow> system" where
  "sup_raise e s =
     (if is_Exception e
      then s\<lparr>sup := S_Done Returned,
             trace := trace s @ [PrintErr (error_message e), PrintErr disconnected]\<rparr>
      else s\<lparr>sup := S_Done (Raised e), trace := trace s @ [PrintErr disconnected]\<rparr>)"

text \<open>
  \<^verbatim>\<open>task.cancel()\<close> (lines 59 and 60): nothing for a task that is done; for a pending
  task, \<open>CancelledError\<close> is thrown into it when it is next resumed.
\<close>

definition cancel_stdin :: "system \<Rightarrow> system" where
  "cancel_stdin s =
     s\<lparr>stdin_must_cancel := \<not> stdin_done s, trace := trace s @ [Cancel StdinTask]\<rparr>"

definition cancel_log :: "system \<Rightarrow> system" where
  "cancel_log s =
     s\<lparr>log_must_cancel := \<not> log_done s, trace := trace s @ [Cancel LogTask]\<rparr>"

text \<open>
  The event loop resumes the supervisor. \<^verbatim>\<open>asyncio.wait\<close> with \<^verbatim>\<open>FIRST_COMPLETED\<close>
  returns once a task is done and \<^verbatim>\<open>asyncio.gather\<close> once both are; before that the
  await cannot return and the supervisor stays suspended. Neither raises the exception
  of a task: \<^verbatim>\<open>wait\<close> returns the sets of done and pending tasks, and \<^verbatim>\<open>gather\<close> with
  \<^verbatim>\<open>return_exceptions=True\<close> returns the exceptions as results, which line 61 discards.
  \<^verbatim>\<open>create_task\<close> schedules both pumps, which run to their first await (lines 12 and 32)
  before the supervisor can be resumed.

  The model lets the supervisor be resumed as soon as a task is done. Under asyncio's
  event loop the command pump has by then left line 12: the pipe is attached by callbacks
  that the pump's first step schedules, ahead of the callbacks of any completion. The model
  has these further runs as well; every theorem about all runs covers the runs of the
  event loop.
\<close>

fun resume_main :: "system \<Rightarrow> outcome \<Rightarrow> system" where
  "resume_main s (Raises e) = (case sup s of S_Done r \<Rightarrow> s | _ \<Rightarrow> sup_raise e s)"
| "resume_main s (Returns v) =
     (case sup s of
        S_ConnectCommand \<Rightarrow>
          s\<lparr>sup := S_ConnectLog,
            trace := trace s @
              [PrintErr (ready_to_command (command_port s)), OpenConnection (log_port s)]\<rparr>
      | S_ConnectLog \<Rightarrow>
          s\<lparr>sup := S_Wait,
            stdin_task := Some CP_ConnectPipe, log_task := Some TP_Read,
            trace := trace s @
              [PrintErr (ready_for_telemetry (log_port s)),
               CreateTask StdinTask, CreateTask LogTask]\<rparr>
      | S_Wait \<Rightarrow>
          (if stdin_done s \<or> log_done s
           then (cancel_log (cancel_stdin s))\<lparr>sup := S_Gather\<rparr>
           else s)
      | S_Gather \<Rightarrow>
          (if stdin_done s \<and> log_done s
           then s\<lparr>sup := S_Done Returned, trace := trace s @ [PrintErr disconnected]\<rparr>
           else s)
      | S_Done r \<Rightarrow> s)"

text \<open>The event loop resumes a pump task with the outcome of its pending await.\<close>

definition thrown :: "bool \<Rightarrow> outcome \<Rightarrow> outcome" where
  "thrown must_cancel ev = (if must_cancel then Raises (Exn CancelledError []) else ev)"

fun resume_stdin :: "system \<Rightarrow> outcome \<Rightarrow> system" where
  "resume_stdin s ev =
     (case stdin_task s of
        None \<Rightarrow> s
      | Some (CP_Done r) \<Rightarrow> s
      | Some st \<Rightarrow>
          (case read_stdin_and_send st (thrown (stdin_must_cancel s) ev) of
             (st', acts) \<Rightarrow>
               s\<lparr>stdin_task := Some st', stdin_must_cancel := False,
                 trace := trace s @ acts @
                   (case st' of CP_Done r \<Rightarrow> [TaskDone StdinTask r] | _ \<Rightarrow> [])\<rparr>))"

fun resume_log :: "console \<Rightarrow> system \<Rightarrow> outcome \<Rightarrow> system" where
  "resume_log io s ev =
     (case log_task s of
        None \<Rightarrow> s
      | Some (TP_Done r) \<Rightarrow> s
      | Some st \<Rightarrow>
          (case read_tcp_and_print io st (thrown (log_must_cancel s) ev) of
             (st', acts) \<Rightarrow>
               s\<lparr>log_task := Some st', log_must_cancel := False,
                 trace := trace s @ acts @
                   (case st' of TP_Done r \<Rightarrow> [TaskDone LogTask r] | _ \<Rightarrow> [])\<rparr>))"

datatype event = Main outcome | Stdin outcome | Log outcome

fun step :: "console \<Rightarrow> system \<Rightarrow> event \<Rightarrow> system" where
  "step io s (Main ev) = resume_main s ev"
| "step io s (Stdin ev) = resume_stdin s ev"
| "step io s (Log ev) = resume_log io s ev"

fun run :: "console \<Rightarrow> system \<Rightarrow> event list \<Rightarrow> system" where
  "run io s [] = s"
| "run io s (ev # evs) = run io (step io s ev) evs"

text \<open>
  \<^verbatim>\<open>asyncio.run\<close> (line 74) returns when the supervisor has returned and raises what it
  raises, with one exception. Nothing in the program cancels the main task: a
  \<open>CancelledError\<close> reaches the supervisor only from \<^verbatim>\<open>asyncio.run\<close> itself, whose handler
  of SIGINT counts the interrupt and cancels the main task, and which cancels every task
  when the loop has been left by a \<open>KeyboardInterrupt\<close>. In both cases \<^verbatim>\<open>asyncio.run\<close>
  raises \<open>KeyboardInterrupt\<close> once the supervisor has ended with \<open>CancelledError\<close>.
\<close>

definition asyncio_run :: "result \<Rightarrow> result" where
  "asyncio_run r =
     (case r of
        Returned \<Rightarrow> Returned
      | Raised e \<Rightarrow>
          if exn_class e = CancelledError then Raised (Exn KeyboardInterrupt []) else Raised e)"

text \<open>
  Lines 69 to 76. \<open>None\<close> is a supervisor that is still suspended, so that \<^verbatim>\<open>main\<close> has
  not returned.
\<close>

definition main :: "console \<Rightarrow> event list \<Rightarrow> result option \<times> action list" where
  "main io evs =
     (let s = run io (tcp_translation_client 8124 8125) evs in
      case sup s of
        S_Done r \<Rightarrow>
          (case asyncio_run r of
             Returned \<Rightarrow> (Some Returned, trace s)
           | Raised e \<Rightarrow>
               if exn_class e = KeyboardInterrupt
               then (Some Returned, trace s @ [PrintErr exiting])
               else (Some (Raised e), trace s))
      | _ \<Rightarrow> (None, trace s))"

text \<open>The lines on standard error, in order.\<close>

fun stderr :: "action list \<Rightarrow> string list" where
  "stderr [] = []"
| "stderr (PrintErr t # as) = t # stderr as"
| "stderr (a # as) = stderr as"

declare resume_main.simps [simp del] resume_stdin.simps [simp del] resume_log.simps [simp del]

section \<open>Properties of traces and states\<close>

text \<open>
  The actions a pump performs itself: reads, writes, the close and the prints on standard
  output. Opening a connection, printing on standard error, creating, cancelling and
  completing a task are actions of the supervisor and of the event loop.
\<close>

fun pump_action :: "action \<Rightarrow> bool" where
  "pump_action (OpenConnection p) = False"
| "pump_action (PrintErr t) = False"
| "pump_action (CreateTask t) = False"
| "pump_action (Cancel t) = False"
| "pump_action (TaskDone t r) = False"
| "pump_action a = True"

text \<open>
  What standard error holds at each suspension point of a supervisor that no exception
  has been raised into.
\<close>

fun quiet :: "nat \<Rightarrow> nat \<Rightarrow> system \<Rightarrow> bool" where
  "quiet cport lport s =
     (command_port s = cport \<and> log_port s = lport \<and>
      (case sup s of
         S_ConnectCommand \<Rightarrow> stderr (trace s) = []
       | S_ConnectLog \<Rightarrow> stderr (trace s) = [ready_to_command cport]
       | S_Wait \<Rightarrow> stderr (trace s) = [ready_to_command cport, ready_for_telemetry lport]
       | S_Gather \<Rightarrow> stderr (trace s) = [ready_to_command cport, ready_for_telemetry lport]
       | S_Done r \<Rightarrow>
           r = Returned \<and>
           stderr (trace s) =
             [ready_to_command cport, ready_for_telemetry lport, disconnected]))"

text \<open>
  The shape of the trace with respect to the two connections: it starts with the opening
  of the command connection, and the telemetry connection is opened, if at all, right after
  the readiness line of the command connection.
\<close>

definition connects_in_order :: "nat \<Rightarrow> nat \<Rightarrow> system \<Rightarrow> bool" where
  "connects_in_order cport lport s =
     (command_port s = cport \<and> log_port s = lport \<and>
      (\<exists>rest. trace s = OpenConnection cport # rest \<and>
         (sup s = S_ConnectCommand \<longrightarrow>
            rest = [] \<and> stdin_task s = None \<and> log_task s = None) \<and>
         (OpenConnection lport \<in> set rest \<longrightarrow>
            (\<exists>rest'. rest = PrintErr (ready_to_command cport) # OpenConnection lport # rest'))))"

text \<open>
  Every \<^verbatim>\<open>cancel()\<close> in the trace comes after the completion of some task.
\<close>

definition cancel_after_done :: "action list \<Rightarrow> bool" where
  "cancel_after_done tr =
     (\<forall>pre t post. tr = pre @ Cancel t # post \<longrightarrow> (\<exists>t' r. TaskDone t' r \<in> set pre))"

text \<open>
  The invariant of the orchestration: a task that is done has its completion in the
  trace, cancellations follow a completion, and a supervisor suspended at
  \<^verbatim>\<open>gather\<close> has cancelled both tasks.
\<close>

definition orderly :: "system \<Rightarrow> bool" where
  "orderly s =
     ((stdin_done s \<longrightarrow> (\<exists>r. TaskDone StdinTask r \<in> set (trace s))) \<and>
      (log_done s \<longrightarrow> (\<exists>r. TaskDone LogTask r \<in> set (trace s))) \<and>
      cancel_after_done (trace s) \<and>
      (sup s = S_Gather \<longrightarrow>
         Cancel StdinTask \<in> set (trace s) \<and> Cancel LogTask \<in> set (trace s)))"

text \<open>
  A supervisor that has ended without an exception raised into it has returned, and
  printed the notice after both tasks were cancelled and both were done.
\<close>

definition settled :: "system \<Rightarrow> bool" where
  "settled s =
     (\<forall>r. sup s = S_Done r \<longrightarrow>
        r = Returned \<and>
        (\<exists>pre post r1 r2. trace s = pre @ PrintErr disconnected # post \<and>
           TaskDone StdinTask r1 \<in> set pre \<and> TaskDone LogTask r2 \<in> set pre \<and>
           Cancel StdinTask \<in> set pre \<and> Cancel LogTask \<in> set pre))"

section \<open>The command pump: lemmas\<close>

lemma run_stdin_append:
  "run_stdin st (xs @ ys) =
     (case run_stdin st xs of
        (st', acts) \<Rightarrow> (case run_stdin st' ys of (st'', acts') \<Rightarrow> (st'', acts @ acts')))"
  by (induction xs arbitrary: st) (auto split: prod.splits)

lemma run_stdin_lines:
  "\<forall>l\<in>set ls. l \<noteq> [] \<Longrightarrow>
   run_stdin CP_ReadLine (concat (map (\<lambda>l. [Returns l, Returns []]) ls)) =
     (CP_ReadLine, concat (map (\<lambda>l. [ReadLine l, Write l, Drained]) ls))"
  by (induction ls) auto

lemma wire_append: "wire (xs @ ys) = wire xs @ wire ys"
  by (induction xs rule: wire.induct) auto

lemma wire_lines: "wire (concat (map (\<lambda>l. [ReadLine l, Write l, Drained]) ls)) = concat ls"
  by (induction ls) auto

lemma lines_read_append: "lines_read (xs @ ys) = lines_read xs @ lines_read ys"
  by (induction xs rule: lines_read.induct) auto

lemma step_wire:
  "read_stdin_and_send st ev = (st', acts) \<Longrightarrow> wire acts = concat (lines_read acts)"
  by (cases "(st, ev)" rule: read_stdin_and_send.cases)
     (auto simp: cp_except_def cp_finally_def split: if_splits)

lemma run_wire:
  "run_stdin st es = (st', acts) \<Longrightarrow> wire acts = concat (lines_read acts)"
proof (induction es arbitrary: st st' acts)
  case Nil
  then show ?case by simp
next
  case (Cons ev es)
  obtain s1 a1 where 1: "read_stdin_and_send st ev = (s1, a1)" by force
  obtain s2 a2 where 2: "run_stdin s1 es = (s2, a2)" by force
  from Cons.prems 1 2 have "acts = a1 @ a2" by simp
  with step_wire[OF 1] Cons.IH[OF 2] show ?case
    by (simp add: wire_append lines_read_append)
qed

lemma closes_step:
  assumes "closes st tr" and "st \<noteq> CP_ConnectPipe"
    and "read_stdin_and_send st ev = (st', acts)"
  shows "closes st' (tr @ acts) \<and> st' \<noteq> CP_ConnectPipe"
  using assms
  by (cases "(st, ev)" rule: read_stdin_and_send.cases)
     (auto simp: cp_except_def cp_finally_def suffix_def split: if_splits option.splits)

lemma closes_run:
  assumes "closes st tr" and "st \<noteq> CP_ConnectPipe" and "run_stdin st es = (st', acts)"
  shows "closes st' (tr @ acts)"
  using assms
proof (induction es arbitrary: st tr st' acts)
  case Nil
  then show ?case by simp
next
  case (Cons ev es)
  obtain s1 a1 where 1: "read_stdin_and_send st ev = (s1, a1)" by force
  obtain s2 a2 where 2: "run_stdin s1 es = (s2, a2)" by force
  from Cons.prems(3) 1 2 have eq: "st' = s2" "acts = a1 @ a2" by simp_all
  from closes_step[OF Cons.prems(1,2) 1] have "closes s1 (tr @ a1)" "s1 \<noteq> CP_ConnectPipe"
    by simp_all
  from Cons.IH[OF this 2] eq show ?case by simp
qed

section \<open>The telemetry pump: lemmas\<close>






section \<open>The supervisor: lemmas\<close>

lemma run_snoc: "run io s (evs @ [ev]) = step io (run io s evs) ev"
  by (induction evs arbitrary: s) auto

lemma stderr_append: "stderr (xs @ ys) = stderr xs @ stderr ys"
  by (induction xs rule: stderr.induct) auto

lemma stdin_step_quiet:
  "read_stdin_and_send st ev = (st', acts) \<Longrightarrow> stderr acts = []"
  by (cases "(st, ev)" rule: read_stdin_and_send.cases)
     (auto simp: cp_except_def cp_finally_def split: if_splits)

lemma tcp_step_quiet:
  "read_tcp_and_print io st ev = (st', acts) \<Longrightarrow> stderr acts = []"
  by (cases "(io, st, ev)" rule: read_tcp_and_print.cases)
     (auto simp: tp_except_def split: if_splits option.splits)

lemma resume_stdin_frame:
  "command_port (resume_stdin s ev) = command_port s"
  "log_port (resume_stdin s ev) = log_port s"
  "sup (resume_stdin s ev) = sup s"
  "log_task (resume_stdin s ev) = log_task s"
  "log_must_cancel (resume_stdin s ev) = log_must_cancel s"
  by (auto simp: resume_stdin.simps split: option.splits cp_state.splits prod.splits)

lemma resume_log_frame:
  "command_port (resume_log io s ev) = command_port s"
  "log_port (resume_log io s ev) = log_port s"
  "sup (resume_log io s ev) = sup s"
  "stdin_task (resume_log io s ev) = stdin_task s"
  "stdin_must_cancel (resume_log io s ev) = stdin_must_cancel s"
  by (auto simp: resume_log.simps split: option.splits tp_state.splits prod.splits)

lemma resume_stdin_stderr: "stderr (trace (resume_stdin s ev)) = stderr (trace s)"
  by (auto simp: resume_stdin.simps stderr_append dest: stdin_step_quiet
      split: option.splits cp_state.splits prod.splits)

lemma resume_log_stderr: "stderr (trace (resume_log io s ev)) = stderr (trace s)"
  by (auto simp: resume_log.simps stderr_append dest: tcp_step_quiet
      split: option.splits tp_state.splits prod.splits)

lemma stdin_step_actions:
  "read_stdin_and_send st ev = (st', acts) \<Longrightarrow> \<forall>a\<in>set acts. pump_action a"
  by (cases "(st, ev)" rule: read_stdin_and_send.cases)
     (auto simp: cp_except_def cp_finally_def split: if_splits)

lemma tcp_step_actions:
  "read_tcp_and_print io st ev = (st', acts) \<Longrightarrow> \<forall>a\<in>set acts. pump_action a"
  by (cases "(io, st, ev)" rule: read_tcp_and_print.cases)
     (auto simp: tp_except_def split: if_splits option.splits)

lemma resume_stdin_trace:
  "\<exists>acts. trace (resume_stdin s ev) = trace s @ acts \<and>
     (\<forall>a\<in>set acts. pump_action a \<or> (\<exists>r. a = TaskDone StdinTask r)) \<and>
     (stdin_done (resume_stdin s ev) \<longrightarrow>
        stdin_done s \<or> (\<exists>r. TaskDone StdinTask r \<in> set acts))"
proof (cases "stdin_task s")
  case None
  then show ?thesis by (simp add: resume_stdin.simps)
next
  case (Some st)
  show ?thesis
  proof (cases "\<exists>r. st = CP_Done r")
    case True
    with Some show ?thesis by (auto simp: resume_stdin.simps)
  next
    case False
    obtain st' acts where r: "read_stdin_and_send st (thrown (stdin_must_cancel s) ev) = (st', acts)"
      by force
    from False Some r have eq: "resume_stdin s ev =
        s\<lparr>stdin_task := Some st', stdin_must_cancel := False,
          trace := trace s @ acts @ (case st' of CP_Done r \<Rightarrow> [TaskDone StdinTask r] | _ \<Rightarrow> [])\<rparr>"
      by (cases st) (auto simp: resume_stdin.simps)
    from stdin_step_actions[OF r] show ?thesis
      unfolding eq by (cases st') (auto simp: stdin_done.simps)
  qed
qed

lemma resume_log_trace:
  "\<exists>acts. trace (resume_log io s ev) = trace s @ acts \<and>
     (\<forall>a\<in>set acts. pump_action a \<or> (\<exists>r. a = TaskDone LogTask r)) \<and>
     (log_done (resume_log io s ev) \<longrightarrow>
        log_done s \<or> (\<exists>r. TaskDone LogTask r \<in> set acts))"
proof (cases "log_task s")
  case None
  then show ?thesis by (simp add: resume_log.simps)
next
  case (Some st)
  show ?thesis
  proof (cases "\<exists>r. st = TP_Done r")
    case True
    with Some show ?thesis by (auto simp: resume_log.simps)
  next
    case False
    obtain st' acts where r: "read_tcp_and_print io st (thrown (log_must_cancel s) ev) = (st', acts)"
      by force
    from False Some r have eq: "resume_log io s ev =
        s\<lparr>log_task := Some st', log_must_cancel := False,
          trace := trace s @ acts @ (case st' of TP_Done r \<Rightarrow> [TaskDone LogTask r] | _ \<Rightarrow> [])\<rparr>"
      by (cases st) (auto simp: resume_log.simps)
    from tcp_step_actions[OF r] show ?thesis
      unfolding eq by (cases st') (auto simp: log_done.simps)
  qed
qed

lemma notice_step:
  assumes "\<forall>r. sup s = S_Done r \<longrightarrow> stderr (trace s) \<noteq> [] \<and> last (stderr (trace s)) = disconnected"
  shows "\<forall>r. sup (step io s ev) = S_Done r \<longrightarrow>
           stderr (trace (step io s ev)) \<noteq> [] \<and> last (stderr (trace (step io s ev))) = disconnected"
proof (cases ev)
  case (Main x)
  then show ?thesis using assms
    by (cases x; cases "sup s")
       (auto simp: resume_main.simps sup_raise_def cancel_stdin_def cancel_log_def stderr_append
             split: if_splits)
next
  case (Stdin x)
  then show ?thesis using assms by (simp add: resume_stdin_frame resume_stdin_stderr)
next
  case (Log x)
  then show ?thesis using assms by (simp add: resume_log_frame resume_log_stderr)
qed

lemma notice_run:
  "\<forall>r. sup (run io (tcp_translation_client cport lport) evs) = S_Done r \<longrightarrow>
     stderr (trace (run io (tcp_translation_client cport lport) evs)) \<noteq> [] \<and>
     last (stderr (trace (run io (tcp_translation_client cport lport) evs))) = disconnected"
proof (induction evs rule: rev_induct)
  case Nil
  then show ?case by (simp add: tcp_translation_client_def)
next
  case (snoc ev evs)
  from notice_step[OF snoc.IH] show ?case by (simp add: run_snoc)
qed



lemma quiet_step:
  assumes "quiet cport lport s" and "\<forall>e. ev \<noteq> Main (Raises e)"
  shows "quiet cport lport (step io s ev)"
proof (cases ev)
  case (Main x)
  with assms(2) obtain v where "x = Returns v" by (cases x) auto
  with Main assms(1) show ?thesis
    by (cases "sup s")
       (auto simp: resume_main.simps cancel_stdin_def cancel_log_def stderr_append
             split: if_splits)
next
  case (Stdin x)
  then show ?thesis using assms(1)
    by (cases "sup s") (simp_all add: resume_stdin_frame resume_stdin_stderr)
next
  case (Log x)
  then show ?thesis using assms(1)
    by (cases "sup s") (simp_all add: resume_log_frame resume_log_stderr)
qed

lemma quiet_run:
  "\<forall>e. Main (Raises e) \<notin> set evs \<Longrightarrow>
   quiet cport lport (run io (tcp_translation_client cport lport) evs)"
proof (induction evs rule: rev_induct)
  case Nil
  then show ?case by (simp add: tcp_translation_client_def)
next
  case (snoc ev evs)
  then have "quiet cport lport (run io (tcp_translation_client cport lport) evs)"
    and "\<forall>e. ev \<noteq> Main (Raises e)" by auto
  from quiet_step[OF this] show ?case by (simp add: run_snoc)
qed

lemma connects_in_order_append:
  assumes "connects_in_order cport lport s" and "sup s \<noteq> S_ConnectCommand"
    and "trace s' = trace s @ acts" and "\<forall>p. OpenConnection p \<notin> set acts"
    and "command_port s' = command_port s" and "log_port s' = log_port s"
    and "sup s' \<noteq> S_ConnectCommand"
  shows "connects_in_order cport lport s'"
  using assms unfolding connects_in_order_def by auto

lemma pump_action_not_open: "\<forall>a\<in>set acts. pump_action a \<or> (\<exists>r. a = TaskDone t r) \<Longrightarrow>
  \<forall>p. OpenConnection p \<notin> set acts"
  by auto

lemma connects_in_order_step:
  assumes "connects_in_order cport lport s"
  shows "connects_in_order cport lport (step io s ev)"
proof (cases "sup s = S_ConnectCommand")
  case True
  with assms have tr: "trace s = [OpenConnection cport]"
    and ports: "command_port s = cport" "log_port s = lport"
    and tasks: "stdin_task s = None" "log_task s = None"
    by (auto simp: connects_in_order_def)
  show ?thesis
  proof (cases ev)
    case (Main x)
    with True tr ports show ?thesis
      by (cases x) (auto simp: connects_in_order_def resume_main.simps sup_raise_def)
  next
    case (Stdin x)
    with tasks assms show ?thesis by (simp add: resume_stdin.simps)
  next
    case (Log x)
    with tasks assms show ?thesis by (simp add: resume_log.simps)
  qed
next
  case False
  show ?thesis
  proof (cases ev)
    case (Main x)
    have "\<exists>acts. trace (resume_main s x) = trace s @ acts \<and> (\<forall>p. OpenConnection p \<notin> set acts)
        \<and> command_port (resume_main s x) = command_port s
        \<and> log_port (resume_main s x) = log_port s
        \<and> sup (resume_main s x) \<noteq> S_ConnectCommand"
      using False
      by (cases x; cases "sup s")
         (auto simp: resume_main.simps sup_raise_def cancel_stdin_def cancel_log_def)
    with connects_in_order_append[OF assms False] Main show ?thesis by auto
  next
    case (Stdin x)
    obtain acts where a: "trace (resume_stdin s x) = trace s @ acts"
      "\<forall>a\<in>set acts. pump_action a \<or> (\<exists>r. a = TaskDone StdinTask r)"
      using resume_stdin_trace by blast
    from connects_in_order_append[OF assms False a(1) pump_action_not_open[OF a(2)]] False Stdin
    show ?thesis by (simp add: resume_stdin_frame)
  next
    case (Log x)
    obtain acts where a: "trace (resume_log io s x) = trace s @ acts"
      "\<forall>a\<in>set acts. pump_action a \<or> (\<exists>r. a = TaskDone LogTask r)"
      using resume_log_trace by blast
    from connects_in_order_append[OF assms False a(1) pump_action_not_open[OF a(2)]] False Log
    show ?thesis by (simp add: resume_log_frame)
  qed
qed

lemma connects_in_order_run:
  "connects_in_order cport lport (run io (tcp_translation_client cport lport) evs)"
proof (induction evs rule: rev_induct)
  case Nil
  then show ?case by (simp add: tcp_translation_client_def connects_in_order_def)
next
  case (snoc ev evs)
  from connects_in_order_step[OF snoc.IH] show ?case by (simp add: run_snoc)
qed

lemma finished_without_tasks:
  assumes "sup s = S_Done r" and "stdin_task s = None" and "log_task s = None"
  shows "run io s evs = s"
proof (induction evs)
  case Nil
  then show ?case by simp
next
  case (Cons ev evs)
  have "step io s ev = s"
  proof (cases ev)
    case (Main x)
    with assms(1) show ?thesis by (cases x) (simp_all add: resume_main.simps)
  next
    case (Stdin x)
    with assms(2) show ?thesis by (simp add: resume_stdin.simps)
  next
    case (Log x)
    with assms(3) show ?thesis by (simp add: resume_log.simps)
  qed
  with Cons show ?case by simp
qed

lemma cancel_after_done_append:
  assumes "cancel_after_done xs"
    and "(\<forall>t. Cancel t \<notin> set ys) \<or> (\<exists>t r. TaskDone t r \<in> set xs)"
  shows "cancel_after_done (xs @ ys)"
  unfolding cancel_after_done_def
proof (intro allI impI)
  fix pre t post
  assume eq: "xs @ ys = pre @ Cancel t # post"
  then consider us where "xs = pre @ us" "us @ ys = Cancel t # post"
    | us where "xs @ us = pre" "ys = us @ Cancel t # post"
    by (auto simp: append_eq_append_conv2)
  then show "\<exists>t' r. TaskDone t' r \<in> set pre"
  proof cases
    case 1
    show ?thesis
    proof (cases us)
      case Nil
      with 1 have "xs = pre" "Cancel t \<in> set ys" by simp_all
      with assms(2) show ?thesis by auto
    next
      case (Cons u us')
      with 1 have "xs = pre @ Cancel t # us'" by simp
      with assms(1) show ?thesis unfolding cancel_after_done_def by blast
    qed
  next
    case 2
    then have "Cancel t \<in> set ys" "set xs \<subseteq> set pre" by auto
    with assms(2) show ?thesis by auto
  qed
qed

lemma orderly_step:
  assumes "orderly s"
  shows "orderly (step io s ev)"
proof (cases ev)
  case (Main x)
  show ?thesis
  proof (cases x)
    case (Raises e)
    have "\<exists>acts. trace (resume_main s x) = trace s @ acts \<and> (\<forall>t. Cancel t \<notin> set acts)
       \<and> stdin_task (resume_main s x) = stdin_task s \<and> log_task (resume_main s x) = log_task s
       \<and> sup (resume_main s x) \<noteq> S_Gather"
      using Raises assms
      by (cases "sup s") (auto simp: resume_main.simps sup_raise_def orderly_def)
    then obtain acts where a: "trace (resume_main s x) = trace s @ acts"
      "\<forall>t. Cancel t \<notin> set acts" "stdin_task (resume_main s x) = stdin_task s"
      "log_task (resume_main s x) = log_task s" "sup (resume_main s x) \<noteq> S_Gather"
      by blast
    from assms have "cancel_after_done (trace s @ acts)"
      using cancel_after_done_append a(2) by (simp add: orderly_def)
    with a assms Main show ?thesis by (auto simp: orderly_def)
  next
    case (Returns v)
    show ?thesis
    proof (cases "sup s")
      case S_ConnectCommand
      with Returns Main assms cancel_after_done_append[of "trace s"
          "[PrintErr (ready_to_command (command_port s)), OpenConnection (log_port s)]"]
      show ?thesis by (auto simp: orderly_def resume_main.simps)
    next
      case S_ConnectLog
      with Returns Main assms cancel_after_done_append[of "trace s"
          "[PrintErr (ready_for_telemetry (log_port s)), CreateTask StdinTask, CreateTask LogTask]"]
      show ?thesis by (auto simp: orderly_def resume_main.simps)
    next
      case S_Wait
      show ?thesis
      proof (cases "stdin_done s \<or> log_done s")
        case True
        with assms have "\<exists>t r. TaskDone t r \<in> set (trace s)" by (auto simp: orderly_def)
        with assms have "cancel_after_done (trace s @ [Cancel StdinTask, Cancel LogTask])"
          using cancel_after_done_append by (simp add: orderly_def)
        with True S_Wait Returns Main assms show ?thesis
          by (auto simp: orderly_def resume_main.simps cancel_stdin_def cancel_log_def)
      next
        case False
        with S_Wait Returns Main assms show ?thesis by (simp add: resume_main.simps)
      qed
    next
      case S_Gather
      with Returns Main assms cancel_after_done_append[of "trace s" "[PrintErr disconnected]"]
      show ?thesis by (auto simp: orderly_def resume_main.simps)
    next
      case (S_Done r)
      with Returns Main assms show ?thesis by (simp add: resume_main.simps)
    qed
  qed
next
  case (Stdin x)
  obtain acts where a: "trace (resume_stdin s x) = trace s @ acts"
    "\<forall>a\<in>set acts. pump_action a \<or> (\<exists>r. a = TaskDone StdinTask r)"
    "stdin_done (resume_stdin s x) \<longrightarrow> stdin_done s \<or> (\<exists>r. TaskDone StdinTask r \<in> set acts)"
    using resume_stdin_trace by blast
  from a(2) have "\<forall>t. Cancel t \<notin> set acts" by auto
  with assms have "cancel_after_done (trace s @ acts)"
    using cancel_after_done_append by (simp add: orderly_def)
  moreover have "log_done (resume_stdin s x) = log_done s" by (simp add: resume_stdin_frame)
  ultimately show ?thesis using a assms Stdin
    by (auto simp: orderly_def resume_stdin_frame simp del: stdin_done.simps log_done.simps)
next
  case (Log x)
  obtain acts where a: "trace (resume_log io s x) = trace s @ acts"
    "\<forall>a\<in>set acts. pump_action a \<or> (\<exists>r. a = TaskDone LogTask r)"
    "log_done (resume_log io s x) \<longrightarrow> log_done s \<or> (\<exists>r. TaskDone LogTask r \<in> set acts)"
    using resume_log_trace by blast
  from a(2) have "\<forall>t. Cancel t \<notin> set acts" by auto
  with assms have "cancel_after_done (trace s @ acts)"
    using cancel_after_done_append by (simp add: orderly_def)
  moreover have "stdin_done (resume_log io s x) = stdin_done s" by (simp add: resume_log_frame)
  ultimately show ?thesis using a assms Log
    by (auto simp: orderly_def resume_log_frame simp del: stdin_done.simps log_done.simps)
qed

lemma orderly_run: "orderly (run io (tcp_translation_client cport lport) evs)"
proof (induction evs rule: rev_induct)
  case Nil
  then show ?case
    by (auto simp: tcp_translation_client_def orderly_def cancel_after_done_def
        Cons_eq_append_conv stdin_done.simps log_done.simps)
next
  case (snoc ev evs)
  from orderly_step[OF snoc.IH] show ?case by (simp add: run_snoc)
qed

lemma settled_append:
  assumes "settled s" and "sup s' = sup s" and "trace s' = trace s @ acts"
  shows "settled s'"
  unfolding settled_def
proof (intro allI impI)
  fix r assume "sup s' = S_Done r"
  with assms(2) have "sup s = S_Done r" by simp
  with assms(1) have "r = Returned" and
    "\<exists>pre post r1 r2. trace s = pre @ PrintErr disconnected # post \<and>
       TaskDone StdinTask r1 \<in> set pre \<and> TaskDone LogTask r2 \<in> set pre \<and>
       Cancel StdinTask \<in> set pre \<and> Cancel LogTask \<in> set pre"
    unfolding settled_def by blast+
  then obtain pre post r1 r2 where p: "trace s = pre @ PrintErr disconnected # post"
    "TaskDone StdinTask r1 \<in> set pre" "TaskDone LogTask r2 \<in> set pre"
    "Cancel StdinTask \<in> set pre" "Cancel LogTask \<in> set pre"
    by blast
  from p(1) assms(3) have "trace s' = pre @ PrintErr disconnected # (post @ acts)" by simp
  with p(2-5) \<open>r = Returned\<close>
  show "r = Returned \<and>
        (\<exists>pre post r1 r2. trace s' = pre @ PrintErr disconnected # post \<and>
           TaskDone StdinTask r1 \<in> set pre \<and> TaskDone LogTask r2 \<in> set pre \<and>
           Cancel StdinTask \<in> set pre \<and> Cancel LogTask \<in> set pre)"
    by blast
qed

lemma settled_step:
  assumes "orderly s" and "settled s" and "\<forall>e. ev \<noteq> Main (Raises e)"
  shows "settled (step io s ev)"
proof (cases ev)
  case (Main x)
  with assms(3) obtain v where x: "x = Returns v" by (cases x) auto
  show ?thesis
  proof (cases "sup s")
    case S_Gather
    show ?thesis
    proof (cases "stdin_done s \<and> log_done s")
      case True
      with assms(1) S_Gather obtain r1 r2 where p:
        "TaskDone StdinTask r1 \<in> set (trace s)" "TaskDone LogTask r2 \<in> set (trace s)"
        "Cancel StdinTask \<in> set (trace s)" "Cancel LogTask \<in> set (trace s)"
        by (auto simp: orderly_def)
      from True S_Gather x Main have q:
        "sup (step io s ev) = S_Done Returned"
        "trace (step io s ev) = trace s @ PrintErr disconnected # []"
        by (simp_all add: resume_main.simps)
      have "\<exists>pre post r1 r2. trace (step io s ev) = pre @ PrintErr disconnected # post \<and>
           TaskDone StdinTask r1 \<in> set pre \<and> TaskDone LogTask r2 \<in> set pre \<and>
           Cancel StdinTask \<in> set pre \<and> Cancel LogTask \<in> set pre"
        using p q(2) by blast
      with q(1) show ?thesis unfolding settled_def by simp
    next
      case False
      with S_Gather x have "resume_main s x = s" by (auto simp: resume_main.simps)
      with Main assms(2) show ?thesis by simp
    qed
  next
    case S_ConnectCommand
    with x Main show ?thesis by (simp add: resume_main.simps settled_def)
  next
    case S_ConnectLog
    with x Main show ?thesis by (simp add: resume_main.simps settled_def)
  next
    case S_Wait
    with x Main show ?thesis
      by (simp add: resume_main.simps settled_def cancel_stdin_def cancel_log_def)
  next
    case (S_Done r)
    with x Main assms(2) show ?thesis by (simp add: resume_main.simps)
  qed
next
  case (Stdin x)
  obtain acts where "trace (resume_stdin s x) = trace s @ acts"
    using resume_stdin_trace by blast
  from settled_append[OF assms(2) _ this] Stdin show ?thesis by (simp add: resume_stdin_frame)
next
  case (Log x)
  obtain acts where "trace (resume_log io s x) = trace s @ acts"
    using resume_log_trace by blast
  from settled_append[OF assms(2) _ this] Log show ?thesis by (simp add: resume_log_frame)
qed

lemma settled_run:
  "\<forall>e. Main (Raises e) \<notin> set evs \<Longrightarrow>
   settled (run io (tcp_translation_client cport lport) evs)"
proof (induction evs rule: rev_induct)
  case Nil
  then show ?case by (simp add: tcp_translation_client_def settled_def)
next
  case (snoc ev evs)
  then have "settled (run io (tcp_translation_client cport lport) evs)"
    and "\<forall>e. ev \<noteq> Main (Raises e)" by auto
  from settled_step[OF orderly_run this] show ?case by (simp add: run_snoc)
qed

text \<open>
  The lines of main's two ports, and the scenario of the specification in which the user
  types \<^verbatim>\<open>status\<close> and the telemetry server sends \<^verbatim>\<open>OK\<close>, each with its newline, run on
  the model with a standard output that takes every character.
\<close>

lemma ready_lines:
  "ready_to_command 8124 = CHR 0x0A # ''Ready to command over port 8124''"
  "ready_for_telemetry 8125 = ''Ready for telemetry over port 8125'' @ [CHR 0x0A]"
  by (simp_all add: ready_to_command_def ready_for_telemetry_def str_nat.simps)

lemma scenario_status_ok:
  "wire (trace (run utf8_terminal (tcp_translation_client 8124 8125)
     [Main (Returns []), Main (Returns []), Stdin (Returns []),
      Stdin (Returns [0x73, 0x74, 0x61, 0x74, 0x75, 0x73, 0x0A]),
      Log (Returns [0x4F, 0x4B, 0x0A]), Stdin (Returns [])])) =
     [0x73, 0x74, 0x61, 0x74, 0x75, 0x73, 0x0A]"
  "stdout (trace (run utf8_terminal (tcp_translation_client 8124 8125)
     [Main (Returns []), Main (Returns []), Stdin (Returns []),
      Stdin (Returns [0x73, 0x74, 0x61, 0x74, 0x75, 0x73, 0x0A]),
      Log (Returns [0x4F, 0x4B, 0x0A]), Stdin (Returns [])])) = [79, 75, 10]"
  by (simp_all add: tcp_translation_client_def resume_main.simps resume_stdin.simps
      resume_log.simps thrown_def utf8_terminal_def utf8_replace_def)

section \<open>The claims\<close>

text \<open>
  C1. For every sequence of newline-terminated lines that \<^verbatim>\<open>readline()\<close> returns, each
  followed by a \<^verbatim>\<open>drain()\<close> that returns, the pump reads a line, writes it verbatim and
  completes the drain before it reads the next one, so the command connection carries
  exactly the lines, in the order they were entered. Moreover, on every script of
  outcomes whatsoever, the bytes written are the concatenation of the lines read so far.
\<close>

theorem command_pump_forwards_lines_in_order:
  assumes "\<forall>l\<in>set ls. l \<noteq> [] \<and> last l = 0x0A"
  shows "run_stdin CP_ConnectPipe
           (Returns p # concat (map (\<lambda>l. [Returns l, Returns []]) ls)) =
           (CP_ReadLine, concat (map (\<lambda>l. [ReadLine l, Write l, Drained]) ls))
         \<and> wire (snd (run_stdin CP_ConnectPipe
               (Returns p # concat (map (\<lambda>l. [Returns l, Returns []]) ls)))) = concat ls
         \<and> wire (snd (run_stdin CP_ConnectPipe es)) =
             concat (lines_read (snd (run_stdin CP_ConnectPipe es)))"
proof -
  from assms have ne: "\<forall>l\<in>set ls. l \<noteq> []" by blast
  have 1: "run_stdin CP_ConnectPipe
             (Returns p # concat (map (\<lambda>l. [Returns l, Returns []]) ls)) =
           (CP_ReadLine, concat (map (\<lambda>l. [ReadLine l, Write l, Drained]) ls))"
    using run_stdin_lines[OF ne] by simp
  have 2: "wire (snd (run_stdin CP_ConnectPipe es)) =
             concat (lines_read (snd (run_stdin CP_ConnectPipe es)))"
    using run_wire[of CP_ConnectPipe es] by (cases "run_stdin CP_ConnectPipe es") simp
  from 1 2 show ?thesis by (simp add: wire_lines)
qed

theorem command_pump_forwards_lines_in_order_witness:
  "run_stdin CP_ConnectPipe
     [Returns [], Returns [0x73, 0x0A], Returns [], Returns [0x67, 0x6F, 0x0A], Returns []] =
     (CP_ReadLine,
      [ReadLine [0x73, 0x0A], Write [0x73, 0x0A], Drained,
       ReadLine [0x67, 0x6F, 0x0A], Write [0x67, 0x6F, 0x0A], Drained])
   \<and> wire (snd (run_stdin CP_ConnectPipe
       [Returns [], Returns [0x73, 0x0A], Returns [], Returns [0x67, 0x6F, 0x0A], Returns []])) =
     [0x73, 0x0A, 0x67, 0x6F, 0x0A]"
  using command_pump_forwards_lines_in_order
    [of "[[0x73, 0x0A], [0x67, 0x6F, 0x0A]]" "[]" "[]"]
  by simp




text \<open>
  C3. In every run of the supervisor: a \<^verbatim>\<open>cancel()\<close> is issued only after some pump has
  completed; when no exception is raised into the supervisor, it ends by returning, and
  the disconnection notice comes after both cancellations and after the completion of
  both pumps, whatever the pumps ended with. Suspended at \<^verbatim>\<open>wait\<close> with no pump done the
  supervisor cannot be resumed; with one pump done (the other may still be pending) it
  cancels both tasks, which marks the pending one, and moves to \<^verbatim>\<open>gather\<close>, where it
  cannot be resumed until both are done. A marked task is resumed with
  \<open>CancelledError\<close> whatever its await produced.
\<close>

theorem supervisor_first_completed_cancel_gather:
  assumes "s = run io (tcp_translation_client cport lport) evs"
  shows "(\<forall>pre t post. trace s = pre @ Cancel t # post \<longrightarrow>
            (\<exists>t' r. TaskDone t' r \<in> set pre))
       \<and> ((\<forall>x. Main (Raises x) \<notin> set evs) \<longrightarrow>
            (\<forall>r. sup s = S_Done r \<longrightarrow>
               r = Returned \<and>
               (\<exists>pre post r1 r2. trace s = pre @ PrintErr disconnected # post \<and>
                  TaskDone StdinTask r1 \<in> set pre \<and> TaskDone LogTask r2 \<in> set pre \<and>
                  Cancel StdinTask \<in> set pre \<and> Cancel LogTask \<in> set pre)))
       \<and> (sup s = S_Wait \<and> \<not> stdin_done s \<and> \<not> log_done s \<longrightarrow>
            step io s (Main (Returns v)) = s)
       \<and> (sup s = S_Wait \<and> (stdin_done s \<or> log_done s) \<longrightarrow>
            sup (step io s (Main (Returns v))) = S_Gather \<and>
            trace (step io s (Main (Returns v))) =
              trace s @ [Cancel StdinTask, Cancel LogTask] \<and>
            stdin_must_cancel (step io s (Main (Returns v))) = (\<not> stdin_done s) \<and>
            log_must_cancel (step io s (Main (Returns v))) = (\<not> log_done s))
       \<and> (sup s = S_Gather \<and> \<not> (stdin_done s \<and> log_done s) \<longrightarrow>
            step io s (Main (Returns v)) = s)
       \<and> (stdin_must_cancel s \<longrightarrow>
            step io s (Stdin ev) = step io s (Stdin (Raises (Exn CancelledError []))))
       \<and> (log_must_cancel s \<longrightarrow>
            step io s (Log ev) = step io s (Log (Raises (Exn CancelledError []))))"
proof -
  have a: "\<forall>pre t post. trace s = pre @ Cancel t # post \<longrightarrow>
            (\<exists>t' r. TaskDone t' r \<in> set pre)"
    using orderly_run[of io cport lport evs] assms
    by (simp add: orderly_def cancel_after_done_def)
  have b: "(\<forall>x. Main (Raises x) \<notin> set evs) \<longrightarrow>
            (\<forall>r. sup s = S_Done r \<longrightarrow>
               r = Returned \<and>
               (\<exists>pre post r1 r2. trace s = pre @ PrintErr disconnected # post \<and>
                  TaskDone StdinTask r1 \<in> set pre \<and> TaskDone LogTask r2 \<in> set pre \<and>
                  Cancel StdinTask \<in> set pre \<and> Cancel LogTask \<in> set pre))"
    using settled_run[of evs io cport lport] assms by (simp add: settled_def)
  have c: "sup s = S_Wait \<and> \<not> stdin_done s \<and> \<not> log_done s \<longrightarrow>
            step io s (Main (Returns v)) = s"
    by (simp add: resume_main.simps)
  have d: "sup s = S_Wait \<and> (stdin_done s \<or> log_done s) \<longrightarrow>
            sup (step io s (Main (Returns v))) = S_Gather \<and>
            trace (step io s (Main (Returns v))) =
              trace s @ [Cancel StdinTask, Cancel LogTask] \<and>
            stdin_must_cancel (step io s (Main (Returns v))) = (\<not> stdin_done s) \<and>
            log_must_cancel (step io s (Main (Returns v))) = (\<not> log_done s)"
    by (auto simp: resume_main.simps cancel_stdin_def cancel_log_def)
  have e: "sup s = S_Gather \<and> \<not> (stdin_done s \<and> log_done s) \<longrightarrow>
            step io s (Main (Returns v)) = s"
    by (simp add: resume_main.simps)
  have f: "stdin_must_cancel s \<longrightarrow>
            step io s (Stdin ev) = step io s (Stdin (Raises (Exn CancelledError [])))"
    by (simp add: resume_stdin.simps thrown_def split: option.splits cp_state.splits)
  have g: "log_must_cancel s \<longrightarrow>
            step io s (Log ev) = step io s (Log (Raises (Exn CancelledError [])))"
    by (simp add: resume_log.simps thrown_def split: option.splits tp_state.splits)
  from a b c d e f g show ?thesis by blast
qed

theorem supervisor_first_completed_cancel_gather_witness:
  "trace (run utf8_terminal (tcp_translation_client 8124 8125)
     [Main (Returns []), Main (Returns []), Stdin (Returns []), Log (Returns []),
      Main (Returns []), Stdin (Returns [0x0A]), Stdin (Returns []), Main (Returns [])]) =
     [OpenConnection 8124, PrintErr (ready_to_command 8124),
      OpenConnection 8125, PrintErr (ready_for_telemetry 8125),
      CreateTask StdinTask, CreateTask LogTask,
      Recv [], TaskDone LogTask Returned,
      Cancel StdinTask, Cancel LogTask,
      Close, Closed, TaskDone StdinTask Returned,
      PrintErr disconnected]
   \<and> sup (run utf8_terminal (tcp_translation_client 8124 8125)
     [Main (Returns []), Main (Returns []), Stdin (Returns []), Log (Returns []),
      Main (Returns []), Stdin (Returns [0x0A]), Stdin (Returns []), Main (Returns [])]) =
     S_Done Returned"
  using supervisor_first_completed_cancel_gather
    [of "run utf8_terminal (tcp_translation_client 8124 8125)
     [Main (Returns []), Main (Returns []), Stdin (Returns []), Log (Returns []),
      Main (Returns []), Stdin (Returns [0x0A]), Stdin (Returns []), Main (Returns [])]"
     utf8_terminal 8124 8125
     "[Main (Returns []), Main (Returns []), Stdin (Returns []), Log (Returns []),
      Main (Returns []), Stdin (Returns [0x0A]), Stdin (Returns []), Main (Returns [])]"
     "[]" "Returns []"]
  by (simp add: tcp_translation_client_def resume_main.simps resume_stdin.simps
      resume_log.simps thrown_def cancel_stdin_def cancel_log_def cp_except_def cp_finally_def)

text \<open>
  C4. After any lines, each of the three causes leads the command pump to
  \<^verbatim>\<open>writer.close()\<close> and to the await of \<^verbatim>\<open>writer.wait_closed()\<close>: an empty read (end of
  input), and a \<open>ConnectionResetError\<close> or a \<open>CancelledError\<close> raised at
  \<^verbatim>\<open>readline()\<close> or at \<^verbatim>\<open>drain()\<close>. The pump ends only when that wait has ended: it returns
  when the wait returns, and it ends by the exception of the wait when the wait raises.
  On every script of outcomes, a pump that has entered its \<^verbatim>\<open>try\<close> statement and has
  ended did the close and the wait last, and it has returned only after the wait
  completed.
\<close>

theorem command_pump_closes_on_termination:
  assumes "\<forall>l\<in>set ls. l \<noteq> []"
    and "exn_class e = ConnectionResetError \<or> exn_class e = CancelledError"
    and "line \<noteq> []"
  shows "run_stdin CP_ConnectPipe
           (Returns p # concat (map (\<lambda>l. [Returns l, Returns []]) ls) @ [Returns []]) =
           (CP_WaitClosed None,
            concat (map (\<lambda>l. [ReadLine l, Write l, Drained]) ls) @ [ReadLine [], Close])
       \<and> run_stdin CP_ConnectPipe
           (Returns p # concat (map (\<lambda>l. [Returns l, Returns []]) ls) @ [Raises e]) =
           (CP_WaitClosed None,
            concat (map (\<lambda>l. [ReadLine l, Write l, Drained]) ls) @ [Close])
       \<and> run_stdin CP_ConnectPipe
           (Returns p # concat (map (\<lambda>l. [Returns l, Returns []]) ls) @
            [Returns line, Raises e]) =
           (CP_WaitClosed None,
            concat (map (\<lambda>l. [ReadLine l, Write l, Drained]) ls) @
            [ReadLine line, Write line, Close])
       \<and> run_stdin (CP_WaitClosed None) [Returns v] = (CP_Done Returned, [Closed])
       \<and> run_stdin (CP_WaitClosed None) [Raises e'] = (CP_Done (Raised e'), [])
       \<and> run_stdin CP_ConnectPipe
           (Returns p # concat (map (\<lambda>l. [Returns l, Returns []]) ls) @
            [Returns [], Returns v]) =
           (CP_Done Returned,
            concat (map (\<lambda>l. [ReadLine l, Write l, Drained]) ls) @
            [ReadLine [], Close, Closed])
       \<and> run_stdin CP_ConnectPipe
           (Returns p # concat (map (\<lambda>l. [Returns l, Returns []]) ls) @
            [Returns line, Raises e, Returns v]) =
           (CP_Done Returned,
            concat (map (\<lambda>l. [ReadLine l, Write l, Drained]) ls) @
            [ReadLine line, Write line, Close, Closed])
       \<and> run_stdin CP_ConnectPipe
           (Returns p # concat (map (\<lambda>l. [Returns l, Returns []]) ls) @
            [Returns line, Raises e, Raises e']) =
           (CP_Done (Raised e'),
            concat (map (\<lambda>l. [ReadLine l, Write l, Drained]) ls) @
            [ReadLine line, Write line, Close])
       \<and> (run_stdin CP_ConnectPipe (Returns p # es) = (CP_Done r, tr) \<longrightarrow>
            (suffix [Close] tr \<or> suffix [Close, Closed] tr) \<and>
            (r = Returned \<longrightarrow> suffix [Close, Closed] tr))"
proof -
  from assms(2) have c: "pump_catches e" by (cases e) auto
  have inv: "run_stdin CP_ConnectPipe (Returns p # es) = (CP_Done r, tr) \<longrightarrow>
            (suffix [Close] tr \<or> suffix [Close, Closed] tr) \<and>
            (r = Returned \<longrightarrow> suffix [Close, Closed] tr)"
  proof
    assume "run_stdin CP_ConnectPipe (Returns p # es) = (CP_Done r, tr)"
    then have "run_stdin CP_ReadLine es = (CP_Done r, tr)"
      by (simp split: prod.splits)
    from closes_run[of CP_ReadLine "[]", OF _ _ this] have "closes (CP_Done r) tr" by simp
    then show "(suffix [Close] tr \<or> suffix [Close, Closed] tr) \<and>
            (r = Returned \<longrightarrow> suffix [Close, Closed] tr)"
      by (cases r) simp_all
  qed
  have runs: "run_stdin CP_ConnectPipe
           (Returns p # concat (map (\<lambda>l. [Returns l, Returns []]) ls) @ [Returns []]) =
           (CP_WaitClosed None,
            concat (map (\<lambda>l. [ReadLine l, Write l, Drained]) ls) @ [ReadLine [], Close])"
    "run_stdin CP_ConnectPipe
           (Returns p # concat (map (\<lambda>l. [Returns l, Returns []]) ls) @ [Raises e]) =
           (CP_WaitClosed None,
            concat (map (\<lambda>l. [ReadLine l, Write l, Drained]) ls) @ [Close])"
    "run_stdin CP_ConnectPipe
           (Returns p # concat (map (\<lambda>l. [Returns l, Returns []]) ls) @
            [Returns line, Raises e]) =
           (CP_WaitClosed None,
            concat (map (\<lambda>l. [ReadLine l, Write l, Drained]) ls) @
            [ReadLine line, Write line, Close])"
    "run_stdin CP_ConnectPipe
           (Returns p # concat (map (\<lambda>l. [Returns l, Returns []]) ls) @
            [Returns [], Returns v]) =
           (CP_Done Returned,
            concat (map (\<lambda>l. [ReadLine l, Write l, Drained]) ls) @
            [ReadLine [], Close, Closed])"
    "run_stdin CP_ConnectPipe
           (Returns p # concat (map (\<lambda>l. [Returns l, Returns []]) ls) @
            [Returns line, Raises e, Returns v]) =
           (CP_Done Returned,
            concat (map (\<lambda>l. [ReadLine l, Write l, Drained]) ls) @
            [ReadLine line, Write line, Close, Closed])"
    "run_stdin CP_ConnectPipe
           (Returns p # concat (map (\<lambda>l. [Returns l, Returns []]) ls) @
            [Returns line, Raises e, Raises e']) =
           (CP_Done (Raised e'),
            concat (map (\<lambda>l. [ReadLine l, Write l, Drained]) ls) @
            [ReadLine line, Write line, Close])"
    using c assms(3)
    by (simp_all add: run_stdin_append run_stdin_lines[OF assms(1)] cp_except_def cp_finally_def)
  from runs inv show ?thesis by simp
qed

theorem command_pump_closes_on_termination_witness:
  "run_stdin CP_ConnectPipe
     [Returns [], Returns [0x73, 0x0A], Returns [], Returns [], Returns []] =
     (CP_Done Returned,
      [ReadLine [0x73, 0x0A], Write [0x73, 0x0A], Drained, ReadLine [], Close, Closed])
   \<and> run_stdin CP_ConnectPipe
     [Returns [], Returns [0x73, 0x0A], Returns [], Raises (Exn CancelledError []),
      Returns []] =
     (CP_Done Returned, [ReadLine [0x73, 0x0A], Write [0x73, 0x0A], Drained, Close, Closed])
   \<and> run_stdin CP_ConnectPipe
     [Returns [], Returns [0x73, 0x0A], Returns [], Returns [0x67, 0x6F, 0x0A],
      Raises (Exn ConnectionResetError ''[Errno 104] Connection reset by peer''),
      Raises (Exn ConnectionResetError ''[Errno 104] Connection reset by peer'')] =
     (CP_Done (Raised (Exn ConnectionResetError ''[Errno 104] Connection reset by peer'')),
      [ReadLine [0x73, 0x0A], Write [0x73, 0x0A], Drained,
       ReadLine [0x67, 0x6F, 0x0A], Write [0x67, 0x6F, 0x0A], Close])
   \<and> suffix [Close, Closed]
       [ReadLine [0x73, 0x0A], Write [0x73, 0x0A], Drained, ReadLine [], Close, Closed]"
proof -
  have ne: "\<forall>l\<in>set [[0x73, 0x0A :: 8 word]]. l \<noteq> []" by simp
  have run: "run_stdin CP_ConnectPipe
     (Returns [] # [Returns [0x73, 0x0A], Returns [], Returns [], Returns []]) =
     (CP_Done Returned,
      [ReadLine [0x73, 0x0A], Write [0x73, 0x0A], Drained, ReadLine [], Close, Closed])"
    by simp
  from command_pump_closes_on_termination
      [where ls = "[[0x73, 0x0A]]"
         and e = "Exn ConnectionResetError ''[Errno 104] Connection reset by peer''"
         and e' = "Exn ConnectionResetError ''[Errno 104] Connection reset by peer''"
         and line = "[0x67, 0x6F, 0x0A]" and p = "[]" and v = "[]"
         and es = "[Returns [0x73, 0x0A], Returns [], Returns [], Returns []]"
         and r = Returned
         and tr = "[ReadLine [0x73, 0x0A], Write [0x73, 0x0A], Drained, ReadLine [], Close,
                    Closed]", OF ne]
    command_pump_closes_on_termination
      [where ls = "[[0x73, 0x0A]]" and e = "Exn CancelledError []" and line = "[0x0A]"
         and p = "[]" and v = "[]", OF ne]
    run
  show ?thesis by (simp add: cp_except_def cp_finally_def)
qed

text \<open>
  C5. If the connection to the command port is refused, then whatever happens next the
  supervisor has printed the error and the notice, returned, and never opened the
  telemetry connection, and \<^verbatim>\<open>main\<close> returns. In every run the trace starts with the
  opening of the command connection, and the telemetry connection is opened only right
  after the readiness line of the command connection.
\<close>

theorem refused_command_port_skips_telemetry:
  "run io (tcp_translation_client 8124 8125)
       (Main (Raises (Exn ConnectionRefusedError m)) # evs) =
     \<lparr>command_port = 8124, log_port = 8125, sup = S_Done Returned,
      stdin_task = None, log_task = None,
      stdin_must_cancel = False, log_must_cancel = False,
      trace = [OpenConnection 8124, PrintErr (error_message (Exn ConnectionRefusedError m)),
               PrintErr disconnected]\<rparr>
   \<and> main io (Main (Raises (Exn ConnectionRefusedError m)) # evs) =
       (Some Returned,
        [OpenConnection 8124, PrintErr (error_message (Exn ConnectionRefusedError m)),
         PrintErr disconnected])
   \<and> (\<exists>rest. trace (run io (tcp_translation_client cport lport) evs') =
          OpenConnection cport # rest \<and>
          (OpenConnection lport \<in> set rest \<longrightarrow>
             (\<exists>rest'. rest = PrintErr (ready_to_command cport) # OpenConnection lport # rest')))"
proof -
  let ?s = "\<lparr>command_port = 8124, log_port = 8125, sup = S_Done Returned,
      stdin_task = None, log_task = None,
      stdin_must_cancel = False, log_must_cancel = False,
      trace = [OpenConnection 8124, PrintErr (error_message (Exn ConnectionRefusedError m)),
               PrintErr disconnected]\<rparr>"
  have 1: "step io (tcp_translation_client 8124 8125)
             (Main (Raises (Exn ConnectionRefusedError m))) = ?s"
    by (simp add: tcp_translation_client_def resume_main.simps sup_raise_def)
  have 2: "run io ?s evs = ?s" by (rule finished_without_tasks) simp_all
  have 3: "run io (tcp_translation_client 8124 8125)
       (Main (Raises (Exn ConnectionRefusedError m)) # evs) = ?s"
    using 1 2 by simp
  have 4: "main io (Main (Raises (Exn ConnectionRefusedError m)) # evs) =
       (Some Returned, trace ?s)"
    unfolding main_def 3 by (simp add: asyncio_run_def)
  from connects_in_order_run[of cport lport io evs'] 3 4 show ?thesis
    unfolding connects_in_order_def by auto
qed

theorem refused_command_port_skips_telemetry_witness:
  "trace (run utf8_terminal (tcp_translation_client 8124 8125)
     [Main (Raises (Exn ConnectionRefusedError ''[Errno 111] Connection refused'')),
      Main (Returns []), Stdin (Returns [0x73, 0x0A]), Log (Returns [0x4F, 0x4B])]) =
     [OpenConnection 8124,
      PrintErr (error_message (Exn ConnectionRefusedError ''[Errno 111] Connection refused'')),
      PrintErr disconnected]
   \<and> OpenConnection 8125 \<notin> set (trace (run utf8_terminal (tcp_translation_client 8124 8125)
     [Main (Raises (Exn ConnectionRefusedError ''[Errno 111] Connection refused'')),
      Main (Returns []), Stdin (Returns [0x73, 0x0A]), Log (Returns [0x4F, 0x4B])]))
   \<and> trace (run utf8_terminal (tcp_translation_client 8124 8125)
       [Main (Returns []), Main (Returns [])]) =
     [OpenConnection 8124, PrintErr (ready_to_command 8124),
      OpenConnection 8125, PrintErr (ready_for_telemetry 8125),
      CreateTask StdinTask, CreateTask LogTask]"
  using refused_command_port_skips_telemetry
    [where io = utf8_terminal and m = "''[Errno 111] Connection refused''"
       and evs = "[Main (Returns []), Stdin (Returns [0x73, 0x0A]), Log (Returns [0x4F, 0x4B])]"
       and cport = 8124 and lport = 8125
       and evs' = "[Main (Returns []), Main (Returns [])]"]
  by (simp add: tcp_translation_client_def resume_main.simps)

text \<open>
  C6. The claim holds of the telemetry pump, and of the command pump for a cancellation
  in its loop when the wait for the close returns. It fails for a connection reset in the
  command pump: \<^verbatim>\<open>drain()\<close> raises the reset, line 21 catches it, and the
  \<^verbatim>\<open>await writer.wait_closed()\<close> of line 25, which is in the \<^verbatim>\<open>finally\<close> block and outside
  the \<^verbatim>\<open>except\<close> clause, raises it again (asyncio sets the exception that lost the
  connection on the close waiter): the pump ends by raising. Line 21 is written to end
  the pump quietly on a reset, as the telemetry pump does; the await of line 25 undoes it.
\<close>

theorem reset_leaves_the_command_pump:
  "run_stdin CP_ConnectPipe
     [Returns [], Returns [0x73, 0x0A],
      Raises (Exn ConnectionResetError ''[Errno 104] Connection reset by peer''),
      Raises (Exn ConnectionResetError ''[Errno 104] Connection reset by peer'')] =
     (CP_Done (Raised (Exn ConnectionResetError ''[Errno 104] Connection reset by peer'')),
      [ReadLine [0x73, 0x0A], Write [0x73, 0x0A], Close])
   \<and> read_tcp_and_print io TP_Read
       (Raises (Exn ConnectionResetError ''[Errno 104] Connection reset by peer'')) =
     (TP_Done Returned, [])
   \<and> read_tcp_and_print io TP_Read (Raises (Exn CancelledError [])) = (TP_Done Returned, [])
   \<and> run_stdin CP_ConnectPipe
     [Returns [], Returns [0x73, 0x0A], Returns [], Raises (Exn CancelledError []),
      Returns []] =
     (CP_Done Returned, [ReadLine [0x73, 0x0A], Write [0x73, 0x0A], Drained, Close, Closed])"
  by (simp add: cp_except_def cp_finally_def tp_except_def)

text \<open>
  C7, as amended. An exception that is neither a \<open>ConnectionResetError\<close> nor a
  \<open>CancelledError\<close>, raised at an await of a pump's loop, is not handled by the pump:
  it ends the pump and propagates out of it (the command pump closes its connection
  first). It stops at the supervisor: as long as no exception is raised at the
  supervisor's own awaits, standard error holds nothing but the two readiness lines and
  the notice, and the supervisor ends by returning.
\<close>

theorem pump_errors_end_the_pump_and_are_absorbed:
  assumes "\<not> pump_catches e" and "\<forall>x. Main (Raises x) \<notin> set evs"
  shows "read_tcp_and_print io TP_Read (Raises e) = (TP_Done (Raised e), [])
       \<and> run_stdin CP_ReadLine [Raises e, Returns v] = (CP_Done (Raised e), [Close, Closed])
       \<and> run_stdin CP_Drain [Raises e, Returns v] = (CP_Done (Raised e), [Close, Closed])
       \<and> prefix (stderr (trace (run io (tcp_translation_client cport lport) evs)))
            [ready_to_command cport, ready_for_telemetry lport, disconnected]
       \<and> (\<forall>r. sup (run io (tcp_translation_client cport lport) evs) = S_Done r \<longrightarrow>
              r = Returned)"
proof -
  let ?s = "run io (tcp_translation_client cport lport) evs"
  have q: "quiet cport lport ?s" using quiet_run[OF assms(2)] .
  have "prefix (stderr (trace ?s))
          [ready_to_command cport, ready_for_telemetry lport, disconnected]"
    using q by (cases "sup ?s") (auto simp: prefix_def)
  moreover have "\<forall>r. sup ?s = S_Done r \<longrightarrow> r = Returned"
    using q by (cases "sup ?s") auto
  ultimately show ?thesis
    using assms(1) by (simp add: cp_except_def cp_finally_def tp_except_def)
qed

theorem pump_errors_end_the_pump_and_are_absorbed_witness:
  "run_stdin CP_ReadLine
     [Raises (Exn ValueError ''Separator is found, but chunk is longer than limit''),
      Returns []] =
     (CP_Done (Raised (Exn ValueError ''Separator is found, but chunk is longer than limit'')),
      [Close, Closed])
   \<and> trace (run utf8_terminal (tcp_translation_client 8124 8125)
       [Main (Returns []), Main (Returns []), Stdin (Returns []),
        Stdin (Raises (Exn ValueError ''Separator is found, but chunk is longer than limit'')),
        Stdin (Returns []), Main (Returns []), Log (Returns [0x4F, 0x4B]),
        Main (Returns [])]) =
     [OpenConnection 8124, PrintErr (ready_to_command 8124),
      OpenConnection 8125, PrintErr (ready_for_telemetry 8125),
      CreateTask StdinTask, CreateTask LogTask,
      Close, Closed,
      TaskDone StdinTask
        (Raised (Exn ValueError ''Separator is found, but chunk is longer than limit'')),
      Cancel StdinTask, Cancel LogTask,
      TaskDone LogTask Returned,
      PrintErr disconnected]
   \<and> sup (run utf8_terminal (tcp_translation_client 8124 8125)
       [Main (Returns []), Main (Returns []), Stdin (Returns []),
        Stdin (Raises (Exn ValueError ''Separator is found, but chunk is longer than limit'')),
        Stdin (Returns []), Main (Returns []), Log (Returns [0x4F, 0x4B]),
        Main (Returns [])]) = S_Done Returned"
  using pump_errors_end_the_pump_and_are_absorbed
    [where e = "Exn ValueError ''Separator is found, but chunk is longer than limit''"
       and io = utf8_terminal and v = "[]" and cport = 8124 and lport = 8125
       and evs = "[Main (Returns []), Main (Returns []), Stdin (Returns []),
        Stdin (Raises (Exn ValueError ''Separator is found, but chunk is longer than limit'')),
        Stdin (Returns []), Main (Returns []), Log (Returns [0x4F, 0x4B]),
        Main (Returns [])]"]
  by (simp add: tcp_translation_client_def resume_main.simps resume_stdin.simps
      resume_log.simps thrown_def cancel_stdin_def cancel_log_def cp_except_def cp_finally_def
      tp_except_def)

text \<open>
  C7, as stated, fails. A line longer than the limit of the stream reader makes
  \<^verbatim>\<open>readline()\<close> raise \<open>ValueError\<close>, and a lost connection can make \<^verbatim>\<open>drain()\<close> raise
  \<open>BrokenPipeError\<close>: neither is handled at the level of the pump, both leave
  \<^verbatim>\<open>read_stdin_and_send\<close>.
\<close>

theorem unhandled_errors_leave_the_pump_counterexample:
  "run_stdin CP_ConnectPipe
     [Returns [],
      Raises (Exn ValueError ''Separator is found, but chunk is longer than limit''),
      Returns []] =
     (CP_Done (Raised (Exn ValueError ''Separator is found, but chunk is longer than limit'')),
      [Close, Closed])
   \<and> run_stdin CP_ConnectPipe
     [Returns [], Returns [0x73, 0x0A],
      Raises (Exn BrokenPipeError ''[Errno 32] Broken pipe''), Returns []] =
     (CP_Done (Raised (Exn BrokenPipeError ''[Errno 32] Broken pipe'')),
      [ReadLine [0x73, 0x0A], Write [0x73, 0x0A], Close, Closed])"
  by (simp add: cp_except_def cp_finally_def)

text \<open>
  C8. On every path the supervisor ends by printing the line \<^verbatim>\<open>Disconnected\<close>, after a
  newline, as its last line on standard error. Normal shutdown: suspended at
  \<^verbatim>\<open>wait\<close> with one pump done and the other pending in its loop, the supervisor, resumed,
  cancels; the pending pump, resumed, ends (the command pump after the outcome of its
  wait for the close, whatever it is); the supervisor, resumed at \<^verbatim>\<open>gather\<close> with both
  pumps done, prints the notice and returns. An exception raised into a supervisor that
  has not ended, at connection setup or later: of class \<^verbatim>\<open>Exception\<close>, the error line and
  the notice are printed and the supervisor returns; of any other class, the notice is
  printed and the exception propagates. And in every run, whenever the supervisor has
  ended, the last line on standard error is the notice.
\<close>

theorem supervisor_always_prints_disconnected:
  "(sup s = S_Gather \<and> stdin_done s \<and> log_done s \<longrightarrow>
      step io s (Main (Returns v)) =
        s\<lparr>sup := S_Done Returned,
          trace := trace s @ [PrintErr (CHR 0x0A # ''Disconnected'')]\<rparr>)
   \<and> (sup s = S_Wait \<and> stdin_done s \<and> log_task s = Some TP_Read \<longrightarrow>
        sup (run io s [Main (Returns v), Log ev, Main (Returns v')]) = S_Done Returned \<and>
        last (stderr (trace (run io s [Main (Returns v), Log ev, Main (Returns v')]))) =
          CHR 0x0A # ''Disconnected'')
   \<and> (sup s = S_Wait \<and> log_done s \<and>
        (stdin_task s = Some CP_ReadLine \<or> stdin_task s = Some CP_Drain) \<longrightarrow>
        sup (run io s [Main (Returns v), Stdin ev, Stdin ev', Main (Returns v')]) =
          S_Done Returned \<and>
        last (stderr (trace
          (run io s [Main (Returns v), Stdin ev, Stdin ev', Main (Returns v')]))) =
          CHR 0x0A # ''Disconnected'')
   \<and> ((\<forall>r'. sup s \<noteq> S_Done r') \<and> is_Exception e \<longrightarrow>
        step io s (Main (Raises e)) =
          s\<lparr>sup := S_Done Returned,
            trace := trace s @
              [PrintErr (''Error: '' @ message e), PrintErr (CHR 0x0A # ''Disconnected'')]\<rparr>)
   \<and> ((\<forall>r'. sup s \<noteq> S_Done r') \<and> \<not> is_Exception e \<longrightarrow>
        step io s (Main (Raises e)) =
          s\<lparr>sup := S_Done (Raised e),
            trace := trace s @ [PrintErr (CHR 0x0A # ''Disconnected'')]\<rparr>)
   \<and> (sup (run io (tcp_translation_client cport lport) evs) = S_Done r \<longrightarrow>
        stderr (trace (run io (tcp_translation_client cport lport) evs)) \<noteq> [] \<and>
        last (stderr (trace (run io (tcp_translation_client cport lport) evs))) =
          CHR 0x0A # ''Disconnected'')"
proof -
  have 1: "sup s = S_Gather \<and> stdin_done s \<and> log_done s \<longrightarrow>
      step io s (Main (Returns v)) =
        s\<lparr>sup := S_Done Returned,
          trace := trace s @ [PrintErr (CHR 0x0A # ''Disconnected'')]\<rparr>"
    by (simp add: resume_main.simps disconnected_def)
  have 2: "sup s = S_Wait \<and> stdin_done s \<and> log_task s = Some TP_Read \<longrightarrow>
        sup (run io s [Main (Returns v), Log ev, Main (Returns v')]) = S_Done Returned \<and>
        last (stderr (trace (run io s [Main (Returns v), Log ev, Main (Returns v')]))) =
          CHR 0x0A # ''Disconnected''"
  proof
    assume a: "sup s = S_Wait \<and> stdin_done s \<and> log_task s = Some TP_Read"
    define s1 where "s1 = step io s (Main (Returns v))"
    define s2 where "s2 = step io s1 (Log ev)"
    define s3 where "s3 = step io s2 (Main (Returns v'))"
    have s1: "sup s1 = S_Gather" "stdin_task s1 = stdin_task s"
      "log_task s1 = Some TP_Read" "log_must_cancel s1"
      using a by (simp_all add: s1_def resume_main.simps cancel_stdin_def cancel_log_def)
    have s2: "sup s2 = S_Gather" "stdin_task s2 = stdin_task s"
      "log_task s2 = Some (TP_Done Returned)"
      using s1 by (simp_all add: s2_def resume_log.simps thrown_def tp_except_def)
    from s2 a have "stdin_done s2" "log_done s2" by simp_all
    with s2(1) have s3: "sup s3 = S_Done Returned"
      "trace s3 = trace s2 @ [PrintErr disconnected]"
      by (simp_all add: s3_def resume_main.simps del: stdin_done.simps log_done.simps)
    have "run io s [Main (Returns v), Log ev, Main (Returns v')] = s3"
      by (simp add: s1_def s2_def s3_def)
    with s3 show "sup (run io s [Main (Returns v), Log ev, Main (Returns v')]) =
          S_Done Returned \<and>
        last (stderr (trace (run io s [Main (Returns v), Log ev, Main (Returns v')]))) =
          CHR 0x0A # ''Disconnected''"
      by (simp add: stderr_append disconnected_def)
  qed
  have 3: "sup s = S_Wait \<and> log_done s \<and>
        (stdin_task s = Some CP_ReadLine \<or> stdin_task s = Some CP_Drain) \<longrightarrow>
        sup (run io s [Main (Returns v), Stdin ev, Stdin ev', Main (Returns v')]) =
          S_Done Returned \<and>
        last (stderr (trace
          (run io s [Main (Returns v), Stdin ev, Stdin ev', Main (Returns v')]))) =
          CHR 0x0A # ''Disconnected''"
  proof
    assume a: "sup s = S_Wait \<and> log_done s \<and>
        (stdin_task s = Some CP_ReadLine \<or> stdin_task s = Some CP_Drain)"
    define s1 where "s1 = step io s (Main (Returns v))"
    define s2 where "s2 = step io s1 (Stdin ev)"
    define s3 where "s3 = step io s2 (Stdin ev')"
    define s4 where "s4 = step io s3 (Main (Returns v'))"
    have s1: "sup s1 = S_Gather" "log_task s1 = log_task s"
      "stdin_task s1 = Some CP_ReadLine \<or> stdin_task s1 = Some CP_Drain"
      "stdin_must_cancel s1"
      using a by (auto simp: s1_def resume_main.simps cancel_stdin_def cancel_log_def)
    have s2: "sup s2 = S_Gather" "log_task s2 = log_task s"
      "stdin_task s2 = Some (CP_WaitClosed None)" "\<not> stdin_must_cancel s2"
      using s1
      by (auto simp: s2_def resume_stdin.simps thrown_def cp_except_def cp_finally_def)
    have s3: "sup s3 = S_Gather" "log_task s3 = log_task s" "stdin_done s3"
      using s2 by (cases ev'; simp add: s3_def resume_stdin.simps thrown_def)+
    from s3 a have "log_done s3" by simp
    with s3 have s4: "sup s4 = S_Done Returned"
      "trace s4 = trace s3 @ [PrintErr disconnected]"
      by (simp_all add: s4_def resume_main.simps del: stdin_done.simps log_done.simps)
    have "run io s [Main (Returns v), Stdin ev, Stdin ev', Main (Returns v')] = s4"
      by (simp add: s1_def s2_def s3_def s4_def)
    with s4 show "sup (run io s [Main (Returns v), Stdin ev, Stdin ev', Main (Returns v')]) =
          S_Done Returned \<and>
        last (stderr (trace
          (run io s [Main (Returns v), Stdin ev, Stdin ev', Main (Returns v')]))) =
          CHR 0x0A # ''Disconnected''"
      by (simp add: stderr_append disconnected_def)
  qed
  have 4: "(\<forall>r'. sup s \<noteq> S_Done r') \<and> is_Exception e \<longrightarrow>
        step io s (Main (Raises e)) =
          s\<lparr>sup := S_Done Returned,
            trace := trace s @
              [PrintErr (''Error: '' @ message e), PrintErr (CHR 0x0A # ''Disconnected'')]\<rparr>"
    by (cases "sup s")
       (auto simp: resume_main.simps sup_raise_def error_message_def disconnected_def)
  have 5: "(\<forall>r'. sup s \<noteq> S_Done r') \<and> \<not> is_Exception e \<longrightarrow>
        step io s (Main (Raises e)) =
          s\<lparr>sup := S_Done (Raised e),
            trace := trace s @ [PrintErr (CHR 0x0A # ''Disconnected'')]\<rparr>"
    by (cases "sup s")
       (auto simp: resume_main.simps sup_raise_def disconnected_def)
  have 6: "sup (run io (tcp_translation_client cport lport) evs) = S_Done r \<longrightarrow>
        stderr (trace (run io (tcp_translation_client cport lport) evs)) \<noteq> [] \<and>
        last (stderr (trace (run io (tcp_translation_client cport lport) evs))) =
          CHR 0x0A # ''Disconnected''"
    using notice_run[of io cport lport evs] by (simp add: disconnected_def)
  from 1 2 3 4 5 6 show ?thesis by blast
qed

theorem supervisor_always_prints_disconnected_witness:
  "stderr (trace (run utf8_terminal (tcp_translation_client 8124 8125)
     [Main (Returns []), Main (Returns []), Stdin (Returns []), Log (Returns []),
      Main (Returns []), Stdin (Returns [0x0A]), Stdin (Returns []), Main (Returns [])])) =
     [CHR 0x0A # ''Ready to command over port 8124'',
      ''Ready for telemetry over port 8125'' @ [CHR 0x0A],
      CHR 0x0A # ''Disconnected'']
   \<and> sup (run utf8_terminal (tcp_translation_client 8124 8125)
     [Main (Returns []), Main (Returns []), Stdin (Returns []), Log (Returns []),
      Main (Returns []), Stdin (Returns [0x0A]), Stdin (Returns []), Main (Returns [])]) =
     S_Done Returned
   \<and> stderr (trace (run utf8_terminal (tcp_translation_client 8124 8125)
       [Main (Raises (Exn ConnectionRefusedError ''[Errno 111] Connection refused''))])) =
     [''Error: [Errno 111] Connection refused'', CHR 0x0A # ''Disconnected'']
   \<and> sup (run utf8_terminal (tcp_translation_client 8124 8125)
       [Main (Raises (Exn ConnectionRefusedError ''[Errno 111] Connection refused''))]) =
     S_Done Returned
   \<and> step utf8_terminal (tcp_translation_client 8124 8125)
       (Main (Raises (Exn CancelledError []))) =
     (tcp_translation_client 8124 8125)
       \<lparr>sup := S_Done (Raised (Exn CancelledError [])),
        trace := [OpenConnection 8124, PrintErr (CHR 0x0A # ''Disconnected'')]\<rparr>"
proof -
  let ?s = "run utf8_terminal (tcp_translation_client 8124 8125)
     [Main (Returns []), Main (Returns []), Stdin (Returns []), Log (Returns [])]"
  have s: "sup ?s = S_Wait \<and> log_done ?s \<and>
        (stdin_task ?s = Some CP_ReadLine \<or> stdin_task ?s = Some CP_Drain)"
    by (simp add: tcp_translation_client_def resume_main.simps resume_stdin.simps
        resume_log.simps thrown_def)
  have d: "sup (run utf8_terminal (tcp_translation_client 8124 8125)
       [Main (Raises (Exn ConnectionRefusedError ''[Errno 111] Connection refused''))]) =
     S_Done Returned"
    by (simp add: tcp_translation_client_def resume_main.simps sup_raise_def)
  from supervisor_always_prints_disconnected
      [where s = ?s and io = utf8_terminal and v = "[]" and v' = "[]"
         and ev = "Returns [0x0A]" and ev' = "Returns []"] s
    supervisor_always_prints_disconnected
      [where io = utf8_terminal and cport = 8124 and lport = 8125 and r = Returned
         and evs = "[Main (Raises (Exn ConnectionRefusedError
                      ''[Errno 111] Connection refused''))]"] d
    supervisor_always_prints_disconnected
      [where s = "tcp_translation_client 8124 8125" and io = utf8_terminal
         and e = "Exn CancelledError []"]
  show ?thesis
    by (simp add: tcp_translation_client_def resume_main.simps resume_stdin.simps
        resume_log.simps thrown_def cancel_stdin_def cancel_log_def cp_except_def
        cp_finally_def sup_raise_def error_message_def disconnected_def
        ready_to_command_def ready_for_telemetry_def str_nat.simps)
qed

text \<open>
  C9. A final line that does not end with a newline is written like any other: after
  any lines, a non-empty partial line is written verbatim and drained, and the empty read
  that follows closes the connection and ends the pump. A read ends the loop without a
  write exactly when it is empty.
\<close>

theorem command_pump_forwards_final_partial_line:
  assumes "\<forall>l\<in>set ls. l \<noteq> []" and "partial \<noteq> []" and "last partial \<noteq> 0x0A"
  shows "run_stdin CP_ConnectPipe
           (Returns p # concat (map (\<lambda>l. [Returns l, Returns []]) ls) @
            [Returns partial, Returns [], Returns [], Returns []]) =
           (CP_Done Returned,
            concat (map (\<lambda>l. [ReadLine l, Write l, Drained]) ls) @
            [ReadLine partial, Write partial, Drained, ReadLine [], Close, Closed])
         \<and> (read_stdin_and_send CP_ReadLine (Returns line) =
               (CP_WaitClosed None, [ReadLine line, Close])) = (line = [])
         \<and> (line \<noteq> [] \<longrightarrow>
               read_stdin_and_send CP_ReadLine (Returns line) =
                 (CP_Drain, [ReadLine line, Write line]))"
proof -
  have "run_stdin CP_ReadLine
          (concat (map (\<lambda>l. [Returns l, Returns []]) ls) @
           [Returns partial, Returns [], Returns [], Returns []]) =
        (CP_Done Returned,
         concat (map (\<lambda>l. [ReadLine l, Write l, Drained]) ls) @
         [ReadLine partial, Write partial, Drained, ReadLine [], Close, Closed])"
    using assms(2) by (simp add: run_stdin_append run_stdin_lines[OF assms(1)])
  then show ?thesis by simp
qed

theorem command_pump_forwards_final_partial_line_witness:
  "run_stdin CP_ConnectPipe
     [Returns [], Returns [0x67, 0x6F, 0x0A], Returns [],
      Returns [0x73], Returns [], Returns [], Returns []] =
     (CP_Done Returned,
      [ReadLine [0x67, 0x6F, 0x0A], Write [0x67, 0x6F, 0x0A], Drained,
       ReadLine [0x73], Write [0x73], Drained, ReadLine [], Close, Closed])"
  using command_pump_forwards_final_partial_line
    [of "[[0x67, 0x6F, 0x0A]]" "[0x73]" "[]" "[]"]
  by simp



end
